theory Spec2Isabelle
  imports Main
begin

section \<open>Dates, the host clock and named time zones\<close>

text \<open>
  A JavaScript \<^verbatim>\<open>Date\<close> is its time value: integer milliseconds since the epoch,
  UTC. The calendar service reads a date in two different clocks:

  \<^item> \<^verbatim>\<open>Intl.DateTimeFormat(..., {timeZone})\<close> reads it in a named zone;
  \<^item> \<^verbatim>\<open>getMinutes\<close>, \<^verbatim>\<open>getSeconds\<close>, \<^verbatim>\<open>getMilliseconds\<close> and \<^verbatim>\<open>setMinutes\<close>
    read and write it in the zone of the process that runs the service (the host).

  Both are parameters of the model. A zone is a fixed offset east of UTC in minutes
  (no daylight-saving transition inside the period looked at); the runtime's zone
  database is the function \<open>zoneOffset\<close>, assumed to know every name it is asked
  (the \<^verbatim>\<open>RangeError\<close> of an unknown name is not modelled). The formatter is taken
  to print midnight as hour 0.
\<close>

type_synonym date = int

record env =
  hostOffset :: int
  zoneOffset :: "string \<Rightarrow> int"

definition localTime :: "env \<Rightarrow> date \<Rightarrow> int" where
  "localTime E d = d + hostOffset E * 60000"

definition getMinutes :: "env \<Rightarrow> date \<Rightarrow> int" where
  "getMinutes E d = (localTime E d div 60000) mod 60"

definition getSeconds :: "env \<Rightarrow> date \<Rightarrow> int" where
  "getSeconds E d = (localTime E d div 1000) mod 60"

definition getMilliseconds :: "env \<Rightarrow> date \<Rightarrow> int" where
  "getMilliseconds E d = localTime E d mod 1000"

text \<open>\<^verbatim>\<open>d.setMinutes(min, sec, ms)\<close>: the host-local hour is kept, the rest replaced.\<close>

definition setMinutes :: "env \<Rightarrow> date \<Rightarrow> int \<Rightarrow> int \<Rightarrow> int \<Rightarrow> date" where
  "setMinutes E d m s ms = d - localTime E d mod 3600000 + m * 60000 + s * 1000 + ms"

definition zoneTime :: "env \<Rightarrow> date \<Rightarrow> string \<Rightarrow> int" where
  "zoneTime E d tz = d + zoneOffset E tz * 60000"

definition getHourInTimezone :: "env \<Rightarrow> date \<Rightarrow> string \<Rightarrow> int" where
  "getHourInTimezone E d tz = (zoneTime E d tz div 3600000) mod 24"

text \<open>Day of the week, 0 = Sunday; the epoch was a Thursday.\<close>

definition getDayInTimezone :: "env \<Rightarrow> date \<Rightarrow> string \<Rightarrow> int" where
  "getDayInTimezone E d tz = (zoneTime E d tz div 86400000 + 4) mod 7"

text \<open>
  The source formats the civil date as \<^verbatim>\<open>YYYY-MM-DD\<close> and only ever compares two such
  strings for equality. The string is a one-to-one rendering of the civil day, so the
  model keeps the day count that it renders.
\<close>

definition getDateStringInTimezone :: "env \<Rightarrow> date \<Rightarrow> string \<Rightarrow> int" where
  "getDateStringInTimezone E d tz = zoneTime E d tz div 86400000"

definition setHourInTimezone :: "env \<Rightarrow> date \<Rightarrow> int \<Rightarrow> string \<Rightarrow> date" where
  "setHourInTimezone E d hour tz =
     (let currentHour = getHourInTimezone E d tz;
          hourDiff = hour - currentHour;
          result = d + hourDiff * 60 * 60 * 1000;
          mins = getMinutes E result;
          secs = getSeconds E result;
          ms = getMilliseconds E result
      in result - mins * 60 * 1000 - secs * 1000 - ms)"

section \<open>Options of a search\<close>

text \<open>
  The numbers of the interface (hours, minutes of duration and of buffer, days of the
  week) are taken to be integers; an optional field that is absent is \<open>None\<close>.
\<close>

datatype time_preference = Morning | Afternoon | Evening | Any

record options =
  timePreference :: "time_preference option"
  notBefore :: "int option"
  notAfter :: "int option"
  excludeDays :: "int list option"
  bufferBefore :: "int option"
  bufferAfter :: "int option"
  timezone :: "string option"

text \<open>\<^verbatim>\<open>options?.field\<close> on an options object that may itself be absent.\<close>

definition opt :: "(options \<Rightarrow> 'a option) \<Rightarrow> options option \<Rightarrow> 'a option" where
  "opt f os = (case os of None \<Rightarrow> None | Some x \<Rightarrow> f x)"

definition getStartHourFromPreference :: "time_preference option \<Rightarrow> int" where
  "getStartHourFromPreference p =
     (case p of Some Morning \<Rightarrow> 9 | Some Afternoon \<Rightarrow> 13 | Some Evening \<Rightarrow> 17 | _ \<Rightarrow> 9)"

text \<open>\<^verbatim>\<open>x || 0\<close> on a number and \<^verbatim>\<open>x || 'Asia/Kolkata'\<close> on a string.\<close>

definition orZero :: "int option \<Rightarrow> int" where
  "orZero x = (case x of None \<Rightarrow> 0 | Some v \<Rightarrow> v)"

definition orKolkata :: "string option \<Rightarrow> string" where
  "orKolkata x = (case x of None \<Rightarrow> ''Asia/Kolkata'' | Some v \<Rightarrow> if v = [] then ''Asia/Kolkata'' else v)"

section \<open>Busy periods and the overlap test\<close>

record busy_period =
  busyStart :: date
  busyEnd :: date

record TimeSlot =
  start :: date
  endT :: date
  available :: bool

text \<open>The predicate handed to \<^verbatim>\<open>busyPeriods.some\<close>, with its three cases in order.\<close>

definition overlapsBusy :: "date \<Rightarrow> date \<Rightarrow> busy_period \<Rightarrow> bool" where
  "overlapsBusy bufferedStart bufferedEnd busy =
     ((bufferedStart \<ge> busyStart busy \<and> bufferedStart < busyEnd busy) \<or>
      (bufferedEnd > busyStart busy \<and> bufferedEnd \<le> busyEnd busy) \<or>
      (bufferedStart \<le> busyStart busy \<and> bufferedEnd \<ge> busyEnd busy))"

definition isSlotFree :: "date \<Rightarrow> date \<Rightarrow> busy_period list \<Rightarrow> bool" where
  "isSlotFree bufferedStart bufferedEnd busyPeriods =
     (\<not> list_ex (overlapsBusy bufferedStart bufferedEnd) busyPeriods)"

section \<open>The slot scanner\<close>

text \<open>
  The constants that the scan loop of \<^verbatim>\<open>calculateFreeSlotsAdvanced\<close> closes over,
  under the names of the source's locals (the two buffers are in milliseconds).
\<close>

record scan =
  timezoneName :: string
  startHour :: int
  endHour :: int
  userSpecifiedEndHour :: bool
  excludedDays :: "int list option"
  isSingleDaySearch :: bool
  slotDuration :: int
  bufferBeforeMs :: int
  bufferAfterMs :: int
  busyPeriods :: "busy_period list"
  windowEnd :: date

text \<open>The two variables the loop mutates.\<close>

record scan_state =
  currentTime :: date
  freeSlots :: "TimeSlot list"

definition advanceToNextDay :: "env \<Rightarrow> scan \<Rightarrow> date \<Rightarrow> date" where
  "advanceToNextDay E c t =
     setHourInTimezone E (t + 24 * 60 * 60 * 1000) (startHour c) (timezoneName c)"

definition isExcludedDay :: "int list option \<Rightarrow> int \<Rightarrow> bool" where
  "isExcludedDay days dayOfWeek = (case days of None \<Rightarrow> False | Some ds \<Rightarrow> dayOfWeek \<in> set ds)"

text \<open>One pass through the body of the \<^verbatim>\<open>while\<close> loop; each \<^verbatim>\<open>continue\<close> is a branch.\<close>

definition loopBody :: "env \<Rightarrow> scan \<Rightarrow> scan_state \<Rightarrow> scan_state" where
  "loopBody E c st =
     (let t = currentTime st;
          dayOfWeek = getDayInTimezone E t (timezoneName c);
          hour = getHourInTimezone E t (timezoneName c)
      in
        if isExcludedDay (excludedDays c) dayOfWeek then
          st\<lparr>currentTime := advanceToNextDay E c t\<rparr>
        else if \<not> isSingleDaySearch c \<and> (dayOfWeek = 0 \<or> dayOfWeek = 6) then
          st\<lparr>currentTime := advanceToNextDay E c t\<rparr>
        else if hour < startHour c \<or> hour > endHour c then
          (if hour > endHour c then st\<lparr>currentTime := advanceToNextDay E c t\<rparr>
           else st\<lparr>currentTime := setHourInTimezone E t (startHour c) (timezoneName c)\<rparr>)
        else
          (let slotEnd = t + slotDuration c + bufferAfterMs c;
               slotEndHour = getHourInTimezone E slotEnd (timezoneName c)
           in
             if \<not> userSpecifiedEndHour c \<and>
                (slotEndHour > endHour c \<or> (slotEndHour = endHour c \<and> getMinutes E slotEnd > 0))
             then st\<lparr>currentTime := advanceToNextDay E c t\<rparr>
             else
               (let bufferedStart = t - bufferBeforeMs c;
                    bufferedEnd = t + slotDuration c + bufferAfterMs c;
                    found = (if isSlotFree bufferedStart bufferedEnd (busyPeriods c)
                             then freeSlots st @
                                  [\<lparr>start = t, endT = t + slotDuration c, available = True\<rparr>]
                             else freeSlots st)
                in \<lparr>currentTime = t + 30 * 60 * 1000, freeSlots = found\<rparr>)))"

definition loopCond :: "scan \<Rightarrow> scan_state \<Rightarrow> bool" where
  "loopCond c st = (currentTime st < windowEnd c \<and> length (freeSlots st) < 10)"

text \<open>
  The loop itself. Nothing in the source bounds the number of passes, so the model
  does not either: a scan that never leaves the loop has the value \<open>None\<close>.
\<close>

partial_function (option) scanLoop :: "env \<Rightarrow> scan \<Rightarrow> scan_state \<Rightarrow> scan_state option" where
  "scanLoop E c st = (if loopCond c st then scanLoop E c (loopBody E c st) else Some st)"

declare scanLoop.simps [code]

text \<open>
  The cursor after the "already past" adjustment: \<^verbatim>\<open>now\<close> is the reading of the system
  clock that the source takes with \<^verbatim>\<open>new Date()\<close>.
\<close>

definition roundUpNow :: "env \<Rightarrow> date \<Rightarrow> date" where
  "roundUpNow E now =
     (let minutes = getMinutes E now
      in if minutes > 0 \<and> minutes \<le> 30 then setMinutes E now 30 0 0
         else if minutes > 30 then setMinutes E (now + (60 - minutes) * 60 * 1000) 0 0 0
         else now)"

definition searchStartHour :: "options option \<Rightarrow> int" where
  "searchStartHour os =
     (case opt notBefore os of Some h \<Rightarrow> h
      | None \<Rightarrow> getStartHourFromPreference (opt timePreference os))"

definition searchEndHour :: "options option \<Rightarrow> int" where
  "searchEndHour os = (case opt notAfter os of Some h \<Rightarrow> h | None \<Rightarrow> 18)"

definition initialCursor :: "env \<Rightarrow> date \<Rightarrow> date \<Rightarrow> options option \<Rightarrow> date" where
  "initialCursor E now startDate os =
     (let tz = orKolkata (opt timezone os);
          startHour = searchStartHour os;
          currentTime = setHourInTimezone E startDate startHour tz;
          todayStr = getDateStringInTimezone E now tz;
          startDateStr = getDateStringInTimezone E startDate tz;
          isToday = (todayStr = startDateStr)
      in if isToday \<and> now > currentTime then roundUpNow E now else currentTime)"

definition scanOf :: "env \<Rightarrow> busy_period list \<Rightarrow> date \<Rightarrow> date \<Rightarrow> int \<Rightarrow> options option \<Rightarrow> scan" where
  "scanOf E busy startDate endDate duration os =
     (let tz = orKolkata (opt timezone os);
          startDateStr = getDateStringInTimezone E startDate tz;
          endDateStr = getDateStringInTimezone E endDate tz
      in \<lparr>timezoneName = tz,
          startHour = searchStartHour os,
          endHour = searchEndHour os,
          userSpecifiedEndHour = (opt notAfter os \<noteq> None),
          excludedDays = opt excludeDays os,
          isSingleDaySearch =
            (startDateStr = endDateStr \<or> endDate - startDate < 24 * 60 * 60 * 1000),
          slotDuration = duration * 60 * 1000,
          bufferBeforeMs = orZero (opt bufferBefore os) * 60 * 1000,
          bufferAfterMs = orZero (opt bufferAfter os) * 60 * 1000,
          busyPeriods = sort_key busyStart busy,
          windowEnd = endDate\<rparr>)"

definition calculateFreeSlotsAdvanced ::
  "env \<Rightarrow> date \<Rightarrow> busy_period list \<Rightarrow> date \<Rightarrow> date \<Rightarrow> int \<Rightarrow> options option \<Rightarrow> TimeSlot list option"
where
  "calculateFreeSlotsAdvanced E now busy startDate endDate duration os =
     map_option (\<lambda>st. take 5 (freeSlots st))
       (scanLoop E (scanOf E busy startDate endDate duration os)
          \<lparr>currentTime = initialCursor E now startDate os, freeSlots = []\<rparr>)"

section \<open>The calendar collaborator and the service methods that call it\<close>

text \<open>
  The Google Calendar client is outside the repository. It is a parameter: a record
  of the three remote calls that the methods below make, over some state \<open>'p\<close> of the
  remote calendar. A call that rejects returns \<open>Inl\<close> with the status code, if any,
  and a rendering of the error's details. Events and busy periods are taken as
  already converted to the service's own types.
\<close>

datatype provider_error = ProviderError (status: "int option") (details: string)

text \<open>A thrown \<^verbatim>\<open>Error\<close>, identified by its message.\<close>

datatype error = Error string

record CalendarEvent =
  ident :: string
  title :: string
  description :: "string option"
  eventStart :: date
  eventEnd :: date
  attendees :: "string list"

record 'p calendar =
  freebusy_query :: "'p \<Rightarrow> date \<Rightarrow> date \<Rightarrow> provider_error + busy_period list"
  events_list :: "'p \<Rightarrow> date \<Rightarrow> date \<Rightarrow> string option \<Rightarrow> provider_error + CalendarEvent list"
  events_delete :: "'p \<Rightarrow> string \<Rightarrow> (provider_error + unit) \<times> 'p"

definition getEvents :: "'p calendar \<Rightarrow> 'p \<Rightarrow> date \<Rightarrow> date \<Rightarrow> error + CalendarEvent list" where
  "getEvents G p timeMin timeMax =
     (case events_list G p timeMin timeMax None of
        Inr items \<Rightarrow> Inr items
      | Inl e \<Rightarrow>
          if status e = Some 401
          then Inl (Error ''Calendar authentication expired. Please reconnect your Google account.'')
          else Inl (Error (''Failed to fetch calendar events: '' @ details e)))"

definition searchEvents ::
  "'p calendar \<Rightarrow> 'p \<Rightarrow> date \<Rightarrow> string \<Rightarrow> date option \<Rightarrow> date option \<Rightarrow> error + CalendarEvent list"
where
  "searchEvents G p now query startDate endDate =
     (let timeMin = (case startDate of Some d \<Rightarrow> d | None \<Rightarrow> now);
          timeMax = (case endDate of Some d \<Rightarrow> d | None \<Rightarrow> now + 30 * 24 * 60 * 60 * 1000)
      in case events_list G p timeMin timeMax (Some query) of
           Inr items \<Rightarrow> Inr items
         | Inl e \<Rightarrow> Inr [])"

definition getLastMeetingOfDay ::
  "env \<Rightarrow> 'p calendar \<Rightarrow> 'p \<Rightarrow> date \<Rightarrow> string option \<Rightarrow> error + CalendarEvent option"
where
  "getLastMeetingOfDay E G p d tzArg =
     (let tz = (case tzArg of None \<Rightarrow> ''Asia/Kolkata'' | Some z \<Rightarrow> z);
          startOfDay = setHourInTimezone E d 0 tz;
          endOfDay = setHourInTimezone E d 23 tz;
          endOfDayFull = endOfDay + 59 * 60 * 1000 + 59 * 1000 + 999
      in case getEvents G p startOfDay endOfDayFull of
           Inl e \<Rightarrow> Inr None
         | Inr events \<Rightarrow>
             if length events = 0 then Inr None
             else Inr (Some (hd (sort_key (\<lambda>e. - eventEnd e) events))))"

text \<open>
  The result of \<^verbatim>\<open>findAvailableSlotsAdvanced\<close> is \<open>None\<close> when the scan does not return,
  \<open>Some (Inl e)\<close> when the promise rejects with \<open>e\<close>, \<open>Some (Inr slots)\<close> otherwise.
\<close>

definition findAvailableSlotsAdvanced ::
  "env \<Rightarrow> 'p calendar \<Rightarrow> 'p \<Rightarrow> date \<Rightarrow> int \<Rightarrow> date \<Rightarrow> date \<Rightarrow> options option
     \<Rightarrow> (error + TimeSlot list) option"
where
  "findAvailableSlotsAdvanced E G p now duration startDate endDate os =
     (case freebusy_query G p startDate endDate of
        Inl e \<Rightarrow> Some (Inl (Error ''Failed to find available slots''))
      | Inr busy \<Rightarrow>
          map_option Inr (calculateFreeSlotsAdvanced E now busy startDate endDate duration os))"

definition deleteMeeting :: "'p calendar \<Rightarrow> 'p \<Rightarrow> string \<Rightarrow> (error + unit) \<times> 'p" where
  "deleteMeeting G p eventId =
     (case events_delete G p eventId of
        (Inl e, p') \<Rightarrow> (Inl (Error ''Failed to delete meeting''), p')
      | (Inr u, p') \<Rightarrow> (Inr (), p'))"

section \<open>Notions used to state the properties\<close>

text \<open>
  The tests that a cursor position \<open>t\<close> has passed when the loop body appends a slot
  for it: no \<^verbatim>\<open>continue\<close> was taken and the buffered slot is free.
\<close>

definition admitsAt :: "env \<Rightarrow> scan \<Rightarrow> date \<Rightarrow> bool" where
  "admitsAt E c t =
     (let dayOfWeek = getDayInTimezone E t (timezoneName c);
          hour = getHourInTimezone E t (timezoneName c);
          slotEnd = t + slotDuration c + bufferAfterMs c;
          slotEndHour = getHourInTimezone E slotEnd (timezoneName c)
      in \<not> isExcludedDay (excludedDays c) dayOfWeek \<and>
         (isSingleDaySearch c \<or> (dayOfWeek \<noteq> 0 \<and> dayOfWeek \<noteq> 6)) \<and>
         startHour c \<le> hour \<and> hour \<le> endHour c \<and>
         (userSpecifiedEndHour c \<or>
            (slotEndHour \<le> endHour c \<and> \<not> (slotEndHour = endHour c \<and> getMinutes E slotEnd > 0))) \<and>
         isSlotFree (t - bufferBeforeMs c) (t + slotDuration c + bufferAfterMs c) (busyPeriods c))"

definition emittedSlot :: "env \<Rightarrow> scan \<Rightarrow> TimeSlot \<Rightarrow> bool" where
  "emittedSlot E c s =
     (endT s = start s + slotDuration c \<and> available s \<and> start s < windowEnd c \<and>
      admitsAt E c (start s))"

text \<open>
  The collected slots lie at or after \<open>lo\<close>, at least 30 minutes apart in the order
  of the list, and at least 30 minutes before the cursor.
\<close>

definition spaced :: "date \<Rightarrow> scan_state \<Rightarrow> bool" where
  "spaced lo st =
     (lo \<le> currentTime st \<and>
      sorted_wrt (\<lambda>a b. start a + 1800000 \<le> start b) (freeSlots st) \<and>
      (\<forall>s \<in> set (freeSlots st). lo \<le> start s \<and> start s + 1800000 \<le> currentTime st))"

text \<open>The first half-hour boundary of the host clock strictly after \<open>now\<close>.\<close>

definition nextHalfHour :: "env \<Rightarrow> date \<Rightarrow> date" where
  "nextHalfHour E now = now + 1800000 - localTime E now mod 1800000"

text \<open>Two slots, as half-open intervals of instants, have no instant in common.\<close>

definition disjointSlots :: "TimeSlot \<Rightarrow> TimeSlot \<Rightarrow> bool" where
  "disjointSlots a b = ({start a ..< endT a} \<inter> {start b ..< endT b} = {})"


section \<open>Example inputs\<close>

text \<open>
  A host whose clock is UTC and a host whose clock is Indian Standard Time, with a
  zone database that knows \<^verbatim>\<open>Asia/Kolkata\<close> (UTC+5:30) and reads every other name as UTC.
\<close>

definition zones :: "string \<Rightarrow> int" where
  "zones z = (if z = ''Asia/Kolkata'' then 330 else 0)"

definition utcHost :: env where
  "utcHost = \<lparr>hostOffset = 0, zoneOffset = zones\<rparr>"

definition kolkataHost :: env where
  "kolkataHost = \<lparr>hostOffset = 330, zoneOffset = zones\<rparr>"

definition utcOptions :: options where
  "utcOptions =
     \<lparr>timePreference = None, notBefore = None, notAfter = None, excludeDays = None,
      bufferBefore = None, bufferAfter = None, timezone = Some ''UTC''\<rparr>"

text \<open>
  A calendar that holds the identifiers of its events and answers a deletion of an
  unknown identifier with status 404, and a calendar that cannot be reached.
\<close>

definition memoryCalendar :: "string list calendar" where
  "memoryCalendar =
     \<lparr>freebusy_query = (\<lambda>p a b. Inr []),
      events_list = (\<lambda>p a b q. Inr []),
      events_delete = (\<lambda>p i. if i \<in> set p then (Inr (), removeAll i p)
                              else (Inl (ProviderError (Some 404) ''Not Found''), p))\<rparr>"

definition unreachableCalendar :: "string list calendar" where
  "unreachableCalendar =
     \<lparr>freebusy_query = (\<lambda>p a b. Inl (ProviderError None ''ECONNREFUSED'')),
      events_list = (\<lambda>p a b q. Inl (ProviderError None ''ECONNREFUSED'')),
      events_delete = (\<lambda>p i. (Inl (ProviderError None ''ECONNREFUSED''), p))\<rparr>"

section \<open>Arithmetic of the clock\<close>

lemma subHour:
  "getMinutes E d * 60 * 1000 + getSeconds E d * 1000 + getMilliseconds E d
     = localTime E d mod 3600000"
proof -
  define x where "x = localTime E d"
  have a: "x mod 3600000 = 60000 * ((x div 60000) mod 60) + x mod 60000"
    using zmod_zmult2_eq [of 60 x 60000] by simp
  have b: "x mod 60000 = 1000 * ((x div 1000) mod 60) + x mod 1000"
    using zmod_zmult2_eq [of 60 x 1000] by simp
  show ?thesis
    unfolding getMinutes_def getSeconds_def getMilliseconds_def x_def [symmetric]
    using a b by simp
qed

lemma localTime_shift_hours: "localTime E (d + k * 3600000) mod 3600000 = localTime E d mod 3600000"
proof -
  have "localTime E (d + k * 3600000) = localTime E d + k * 3600000"
    by (simp add: localTime_def)
  then show ?thesis by (simp only: mod_mult_self1)
qed

lemma setHourInTimezone_eq:
  "setHourInTimezone E d h tz =
     d + (h - getHourInTimezone E d tz) * 3600000 - localTime E d mod 3600000"
proof -
  define r where "r = d + (h - getHourInTimezone E d tz) * 3600000"
  have eq: "d + (h - getHourInTimezone E d tz) * 60 * 60 * 1000 = r"
    by (simp add: r_def)
  have "setHourInTimezone E d h tz =
          r - (getMinutes E r * 60 * 1000 + getSeconds E r * 1000 + getMilliseconds E r)"
    unfolding setHourInTimezone_def Let_def eq by simp
  also have "\<dots> = r - localTime E r mod 3600000"
    by (simp only: subHour)
  also have "localTime E r mod 3600000 = localTime E d mod 3600000"
    unfolding r_def by (rule localTime_shift_hours)
  finally show ?thesis by (simp add: r_def)
qed

lemma hour_range: "0 \<le> getHourInTimezone E d tz \<and> getHourInTimezone E d tz \<le> 23"
  by (simp add: getHourInTimezone_def) 

lemma hour_next_day: "getHourInTimezone E (d + 24 * 60 * 60 * 1000) tz = getHourInTimezone E d tz"
proof -
  have "(zoneTime E d tz + 24 * 3600000) div 3600000 = zoneTime E d tz div 3600000 + 24"
    using div_mult_self1 [of 3600000 "zoneTime E d tz" 24] by linarith
  moreover have "zoneTime E (d + 24 * 60 * 60 * 1000) tz = zoneTime E d tz + 24 * 3600000"
    by (simp add: zoneTime_def)
  ultimately show ?thesis
    by (simp only: getHourInTimezone_def mod_add_self2)
qed

lemma subHour_range: "0 \<le> localTime E d mod 3600000 \<and> localTime E d mod 3600000 \<le> 3599999"
  using pos_mod_bound [of 3600000 "localTime E d"] by simp

lemma setHour_forward:
  assumes "getHourInTimezone E d tz < h"
  shows "d < setHourInTimezone E d h tz"
proof -
  have "1 \<le> h - getHourInTimezone E d tz" using assms by simp
  then have "3600000 \<le> (h - getHourInTimezone E d tz) * 3600000" by simp
  then show ?thesis
    using subHour_range [of E d] by (simp add: setHourInTimezone_eq)
qed

lemma advance_forward:
  assumes "0 \<le> startHour c"
  shows "t < advanceToNextDay E c t"
proof -
  let ?t' = "t + 24 * 60 * 60 * 1000"
  have h: "getHourInTimezone E ?t' (timezoneName c) \<le> 23"
    using hour_range by blast
  have "- 23 \<le> startHour c - getHourInTimezone E ?t' (timezoneName c)"
    using assms h by linarith
  then have "- 23 * 3600000 \<le> (startHour c - getHourInTimezone E ?t' (timezoneName c)) * 3600000"
    by simp
  moreover have "localTime E ?t' mod 3600000 \<le> 3599999"
    using subHour_range by blast
  ultimately show ?thesis
    by (simp add: advanceToNextDay_def setHourInTimezone_eq)
qed

lemma loopBody_cursor:
  assumes "0 \<le> startHour c"
  shows "currentTime st < currentTime (loopBody E c st)"
  using advance_forward [OF assms, of "currentTime st" E]
    setHour_forward [of E "currentTime st" "timezoneName c" "startHour c"]
  by (simp add: loopBody_def Let_def)

section \<open>The loop: one pass, invariants, termination\<close>

lemma loopBody_freeSlots:
  "freeSlots (loopBody E c st) = freeSlots st \<or>
   (freeSlots (loopBody E c st) =
      freeSlots st @ [\<lparr>start = currentTime st, endT = currentTime st + slotDuration c, available = True\<rparr>] \<and>
    currentTime (loopBody E c st) = currentTime st + 1800000 \<and>
    admitsAt E c (currentTime st))"
  by (auto simp add: loopBody_def admitsAt_def Let_def)

lemma scanLoop_invariant:
  assumes run: "scanLoop E c st = Some st'"
    and init: "I st"
    and step: "\<And>s. I s \<Longrightarrow> loopCond c s \<Longrightarrow> I (loopBody E c s)"
  shows "I st' \<and> \<not> loopCond c st'"
proof -
  have "E = E \<longrightarrow> c = c \<longrightarrow> I st \<longrightarrow> I st' \<and> \<not> loopCond c st'"
  proof (rule scanLoop.raw_induct
      [where P = "\<lambda>E0 c0 s0 y. E0 = E \<longrightarrow> c0 = c \<longrightarrow> I s0 \<longrightarrow> I y \<and> \<not> loopCond c y", OF _ run])
    fix f E1 c1 s1 y
    assume ih: "\<And>E0 c0 s0 y. f E0 c0 s0 = Some y \<Longrightarrow>
                  E0 = E \<longrightarrow> c0 = c \<longrightarrow> I s0 \<longrightarrow> I y \<and> \<not> loopCond c y"
      and eq: "(if loopCond c1 s1 then f E1 c1 (loopBody E1 c1 s1) else Some s1) = Some y"
    show "E1 = E \<longrightarrow> c1 = c \<longrightarrow> I s1 \<longrightarrow> I y \<and> \<not> loopCond c y"
    proof (intro impI)
      assume e: "E1 = E" and c: "c1 = c" and i: "I s1"
      show "I y \<and> \<not> loopCond c y"
      proof (cases "loopCond c s1")
        case True
        then have "f E c (loopBody E c s1) = Some y" using eq e c by simp
        moreover have "I (loopBody E c s1)" using step [OF i True] .
        ultimately show ?thesis using ih by blast
      next
        case False
        then have "y = s1" using eq c by simp
        then show ?thesis using i False by simp
      qed
    qed
  qed
  then show ?thesis using init by blast
qed

lemma scanLoop_returns:
  assumes "0 \<le> startHour c"
  shows "\<exists>st'. scanLoop E c st = Some st'"
proof (induction "nat (windowEnd c - currentTime st)" arbitrary: st rule: less_induct)
  case less
  show ?case
  proof (cases "loopCond c st")
    case True
    have "currentTime st < currentTime (loopBody E c st)"
      using loopBody_cursor [OF assms] .
    moreover have "currentTime st < windowEnd c"
      using True by (simp add: loopCond_def)
    ultimately have "nat (windowEnd c - currentTime (loopBody E c st)) < nat (windowEnd c - currentTime st)"
      by linarith
    then obtain st' where "scanLoop E c (loopBody E c st) = Some st'"
      using less by blast
    then show ?thesis using True by (subst scanLoop.simps) simp
  next
    case False
    then show ?thesis by (subst scanLoop.simps) simp
  qed
qed

lemma scan_slots_emitted:
  assumes "scanLoop E c st = Some st'" and "\<forall>s \<in> set (freeSlots st). emittedSlot E c s"
  shows "\<forall>s \<in> set (freeSlots st'). emittedSlot E c s"
proof -
  have "(\<forall>s \<in> set (freeSlots st'). emittedSlot E c s) \<and> \<not> loopCond c st'"
  proof (rule scanLoop_invariant [OF assms(1), where I = "\<lambda>x. \<forall>s \<in> set (freeSlots x). emittedSlot E c s"])
    show "\<forall>s \<in> set (freeSlots st). emittedSlot E c s" by (rule assms(2))
  next
    fix x assume i: "\<forall>s \<in> set (freeSlots x). emittedSlot E c s" and lc: "loopCond c x"
    from loopBody_freeSlots [of E c x]
    show "\<forall>s \<in> set (freeSlots (loopBody E c x)). emittedSlot E c s"
    proof
      assume "freeSlots (loopBody E c x) = freeSlots x"
      then show ?thesis using i by simp
    next
      assume "freeSlots (loopBody E c x) =
                freeSlots x @ [\<lparr>start = currentTime x, endT = currentTime x + slotDuration c, available = True\<rparr>] \<and>
              currentTime (loopBody E c x) = currentTime x + 1800000 \<and> admitsAt E c (currentTime x)"
      then show ?thesis using i lc by (auto simp add: emittedSlot_def loopCond_def)
    qed
  qed
  then show ?thesis by blast
qed

lemma spaced_step:
  assumes "0 \<le> startHour c" and "spaced lo st"
  shows "spaced lo (loopBody E c st)"
proof -
  have up: "currentTime st < currentTime (loopBody E c st)"
    using loopBody_cursor [OF assms(1)] .
  from loopBody_freeSlots [of E c st] show ?thesis
  proof
    assume "freeSlots (loopBody E c st) = freeSlots st"
    then show ?thesis using assms(2) up by (fastforce simp add: spaced_def)
  next
    assume "freeSlots (loopBody E c st) =
              freeSlots st @ [\<lparr>start = currentTime st, endT = currentTime st + slotDuration c, available = True\<rparr>] \<and>
            currentTime (loopBody E c st) = currentTime st + 1800000 \<and> admitsAt E c (currentTime st)"
    then show ?thesis using assms(2) by (fastforce simp add: spaced_def sorted_wrt_append)
  qed
qed

lemma scan_spaced:
  assumes "scanLoop E c st = Some st'" and "0 \<le> startHour c" and "spaced lo st"
  shows "spaced lo st'"
  using scanLoop_invariant [OF assms(1), where I = "spaced lo"] assms(2,3) spaced_step
  by blast

lemma scan_bound:
  assumes "scanLoop E c st = Some st'" and "length (freeSlots st) \<le> 10"
  shows "length (freeSlots st') \<le> 10 \<and> (windowEnd c \<le> currentTime st' \<or> length (freeSlots st') = 10)"
proof -
  have "length (freeSlots st') \<le> 10 \<and> \<not> loopCond c st'"
  proof (rule scanLoop_invariant [OF assms(1), where I = "\<lambda>x. length (freeSlots x) \<le> 10"])
    show "length (freeSlots st) \<le> 10" by (rule assms(2))
  next
    fix x assume "length (freeSlots x) \<le> 10" and "loopCond c x"
    then show "length (freeSlots (loopBody E c x)) \<le> 10"
      using loopBody_freeSlots [of E c x] by (auto simp add: loopCond_def)
  qed
  then show ?thesis by (auto simp add: loopCond_def)
qed

lemma returned_slots_emitted:
  assumes "calculateFreeSlotsAdvanced E now busy startDate endDate duration os = Some res"
    and "s \<in> set res"
  shows "emittedSlot E (scanOf E busy startDate endDate duration os) s"
proof -
  let ?c = "scanOf E busy startDate endDate duration os"
  let ?st = "\<lparr>currentTime = initialCursor E now startDate os, freeSlots = []\<rparr>"
  obtain st' where run: "scanLoop E ?c ?st = Some st'" and res: "res = take 5 (freeSlots st')"
    using assms(1) by (auto simp add: calculateFreeSlotsAdvanced_def)
  have "\<forall>x \<in> set (freeSlots st'). emittedSlot E ?c x"
    by (rule scan_slots_emitted [OF run]) simp
  moreover have "s \<in> set (freeSlots st')"
    using assms(2) res by (auto dest: in_set_takeD)
  ultimately show ?thesis by blast
qed

lemma scan_run:
  assumes "0 \<le> searchStartHour os"
  shows "\<exists>st. scanLoop E (scanOf E busy startDate endDate duration os)
               \<lparr>currentTime = initialCursor E now startDate os, freeSlots = []\<rparr> = Some st \<and>
             calculateFreeSlotsAdvanced E now busy startDate endDate duration os = Some (take 5 (freeSlots st)) \<and>
             spaced (initialCursor E now startDate os) st \<and>
             (\<forall>s \<in> set (freeSlots st). emittedSlot E (scanOf E busy startDate endDate duration os) s) \<and>
             length (freeSlots st) \<le> 10 \<and>
             (endDate \<le> currentTime st \<or> length (freeSlots st) = 10)"
proof -
  let ?c = "scanOf E busy startDate endDate duration os"
  let ?st = "\<lparr>currentTime = initialCursor E now startDate os, freeSlots = []\<rparr>"
  have sh: "0 \<le> startHour ?c" using assms by (simp add: scanOf_def Let_def)
  obtain st' where run: "scanLoop E ?c ?st = Some st'"
    using scanLoop_returns [OF sh] by blast
  have "spaced (initialCursor E now startDate os) ?st" by (simp add: spaced_def)
  then have sp: "spaced (initialCursor E now startDate os) st'"
    using scan_spaced [OF run sh] by blast
  have em: "\<forall>s \<in> set (freeSlots st'). emittedSlot E ?c s"
    by (rule scan_slots_emitted [OF run]) simp
  have "length (freeSlots st') \<le> 10 \<and> (windowEnd ?c \<le> currentTime st' \<or> length (freeSlots st') = 10)"
    by (rule scan_bound [OF run]) simp
  then have bd: "length (freeSlots st') \<le> 10 \<and> (endDate \<le> currentTime st' \<or> length (freeSlots st') = 10)"
    by (simp add: scanOf_def Let_def)
  show ?thesis
    using run sp em bd by (simp add: calculateFreeSlotsAdvanced_def)
qed

section \<open>The overlap test\<close>

text \<open>
  C2. For a buffered candidate \<open>[s, e)\<close> with \<open>s < e\<close> and a busy period \<open>[bs, be)\<close> with
  \<open>bs < be\<close>, the three-case test of the scanner holds exactly when \<open>s < be\<close> and
  \<open>e > bs\<close>. Hence a candidate that ends where the busy period starts is free, one that
  starts where it ends is free, and a candidate that shares an interval of positive
  length with a busy period of the list is not free.
\<close>

theorem overlap_test_is_interval_intersection:
  assumes "s < e" and "busyStart b < busyEnd b"
  shows "(overlapsBusy s e b \<longleftrightarrow> s < busyEnd b \<and> e > busyStart b) \<and>
         (e = busyStart b \<longrightarrow> isSlotFree s e [b]) \<and>
         (s = busyEnd b \<longrightarrow> isSlotFree s e [b]) \<and>
         (b \<in> set busy \<and> max s (busyStart b) < min e (busyEnd b) \<longrightarrow> \<not> isSlotFree s e busy)"
proof -
  have eq: "overlapsBusy s e b \<longleftrightarrow> s < busyEnd b \<and> e > busyStart b"
    using assms unfolding overlapsBusy_def by linarith
  have "\<not> isSlotFree s e busy" if "b \<in> set busy" and "max s (busyStart b) < min e (busyEnd b)"
  proof -
    have "overlapsBusy s e b" using that(2) eq by simp
    then show ?thesis using that(1) by (auto simp add: isSlotFree_def list_ex_iff)
  qed
  then show ?thesis using eq assms by (auto simp add: isSlotFree_def)
qed

theorem overlap_test_is_interval_intersection_witness:
  "(overlapsBusy 1707210000000 1707211800000 \<lparr>busyStart = 1707211800000, busyEnd = 1707215400000\<rparr>
      \<longleftrightarrow> False) \<and>
   isSlotFree 1707210000000 1707211800000 [\<lparr>busyStart = 1707211800000, busyEnd = 1707215400000\<rparr>] \<and>
   \<not> isSlotFree 1707210000000 1707211800001 [\<lparr>busyStart = 1707211800000, busyEnd = 1707215400000\<rparr>]"
proof -
  let ?b = "\<lparr>busyStart = 1707211800000, busyEnd = 1707215400000\<rparr>"
  have b: "busyStart ?b < busyEnd ?b" by simp
  have s1: "(1707210000000::int) < 1707211800000" by simp
  have s2: "(1707210000000::int) < 1707211800001" by simp
  show ?thesis
    using overlap_test_is_interval_intersection [OF s1 b, of "[?b]"]
      overlap_test_is_interval_intersection [OF s2 b, of "[?b]"]
    by simp
qed

section \<open>Setting the hour in a zone\<close>

text \<open>
  On a host whose offset differs from the zone's by whole hours, \<^verbatim>\<open>setHourInTimezone\<close>
  returns the instant that reads \<open>h:00:00.000\<close> in the zone, on the same civil date of
  the zone as its argument.
\<close>

lemma setHourInTimezone_aligned_host:
  assumes al: "(zoneOffset E tz - hostOffset E) mod 60 = 0" and "0 \<le> h" and "h \<le> 23"
  shows "getHourInTimezone E (setHourInTimezone E d h tz) tz = h \<and>
         zoneTime E (setHourInTimezone E d h tz) tz mod 3600000 = 0 \<and>
         getDateStringInTimezone E (setHourInTimezone E d h tz) tz = getDateStringInTimezone E d tz"
proof -
  let ?Z = "zoneTime E d tz"
  let ?H = "getHourInTimezone E d tz"
  let ?D = "?Z div 86400000"
  obtain k where k: "zoneOffset E tz - hostOffset E = 60 * k"
    using al by (auto simp add: mod_eq_0_iff_dvd elim: dvdE)
  have "?Z = localTime E d + k * 3600000"
    using k by (simp add: zoneTime_def localTime_def algebra_simps)
  then have sub: "localTime E d mod 3600000 = ?Z mod 3600000"
    by (simp only: mod_mult_self1)
  have hd: "?Z div 3600000 = 24 * ?D + ?H"
  proof -
    have "?Z div 86400000 = (?Z div 3600000) div 24"
      using zdiv_zmult2_eq [of 24 ?Z 3600000] by simp
    then show ?thesis by (simp add: getHourInTimezone_def)
  qed
  have s1: "zoneTime E (setHourInTimezone E d h tz) tz = ?Z + (h - ?H) * 3600000 - ?Z mod 3600000"
    by (simp add: setHourInTimezone_eq sub zoneTime_def)
  have s2: "?Z - ?Z mod 3600000 = (?Z div 3600000) * 3600000"
    by (simp add: minus_mod_eq_div_mult)
  have "zoneTime E (setHourInTimezone E d h tz) tz = (24 * ?D + h) * 3600000"
    using s1 s2 hd by (simp add: algebra_simps)
  then have z: "zoneTime E (setHourInTimezone E d h tz) tz = h * 3600000 + ?D * 86400000"
    by (simp add: algebra_simps)
  have "(h * 3600000 + ?D * 86400000) div 3600000 = h + ?D * 24"
    by simp
  then have hr: "getHourInTimezone E (setHourInTimezone E d h tz) tz = h"
    using assms(2,3) by (simp add: getHourInTimezone_def z)
  have "(h * 3600000 + ?D * 86400000) div 86400000 = ?D"
    using assms(2,3) by simp
  then have dt: "getDateStringInTimezone E (setHourInTimezone E d h tz) tz = ?D"
    by (simp add: getDateStringInTimezone_def z)
  have "(h * 3600000 + ?D * 86400000) mod 3600000 = 0"
    by simp
  then show ?thesis using hr dt by (simp add: z getDateStringInTimezone_def)
qed

text \<open>
  C1. \<^verbatim>\<open>setHourInTimezone(t, h, zone)\<close> is to return the instant that reads \<open>h:00:00.000\<close>
  in the zone on the local date of \<open>t\<close>; for \<^verbatim>\<open>Asia/Kolkata\<close> and hour 9 that is
  03:30:00.000 UTC. The source clears the minutes that \<^verbatim>\<open>getMinutes\<close> reads on the host
  clock, not those of the zone. On a host in UTC, from 2024-02-06T05:15:00Z (10:45 in
  Kolkata, day 19759 of the epoch there) it returns 2024-02-06T04:00:00Z, which reads
  09:30 in Kolkata, not 03:30:00Z; on a host in Kolkata it returns 03:30:00Z.
\<close>

theorem setHourInTimezone_on_utc_host:
  "setHourInTimezone utcHost 1707196500000 9 ''Asia/Kolkata'' = 1707192000000 \<and>
   getDateStringInTimezone utcHost 1707196500000 ''Asia/Kolkata'' = 19759 \<and>
   getDateStringInTimezone utcHost 1707192000000 ''Asia/Kolkata'' = 19759 \<and>
   getHourInTimezone utcHost 1707192000000 ''Asia/Kolkata'' = 9 \<and>
   zoneTime utcHost 1707192000000 ''Asia/Kolkata'' mod 3600000 = 1800000 \<and>
   setHourInTimezone kolkataHost 1707196500000 9 ''Asia/Kolkata'' = 1707190200000"
  by (intro conjI; code_simp)

section \<open>Result cap and order\<close>

text \<open>
  C7. The list returned by \<^verbatim>\<open>calculateFreeSlotsAdvanced\<close> has at most 5 slots, and its
  slots are in non-decreasing order of start time. The cap holds for whatever the scan
  returns; for a start hour that is not negative (the data model has it in 0..23) the
  scan does return, and what it returns is in order.
\<close>

theorem result_capped_and_chronological:
  "(calculateFreeSlotsAdvanced E now busy startDate endDate duration os = Some res \<longrightarrow> length res \<le> 5) \<and>
   (0 \<le> searchStartHour os \<longrightarrow>
      (\<exists>slots. calculateFreeSlotsAdvanced E now busy startDate endDate duration os = Some slots \<and>
         length slots \<le> 5 \<and> sorted (map start slots)))"
proof (intro conjI impI)
  assume "calculateFreeSlotsAdvanced E now busy startDate endDate duration os = Some res"
  then show "length res \<le> 5"
    by (auto simp add: calculateFreeSlotsAdvanced_def)
next
  assume h: "0 \<le> searchStartHour os"
  let ?c = "scanOf E busy startDate endDate duration os"
  let ?st = "\<lparr>currentTime = initialCursor E now startDate os, freeSlots = []\<rparr>"
  have sh: "0 \<le> startHour ?c" using h by (simp add: scanOf_def Let_def)
  obtain st' where run: "scanLoop E ?c ?st = Some st'"
    using scanLoop_returns [OF sh] by blast
  have "spaced (initialCursor E now startDate os) ?st" by (simp add: spaced_def)
  then have "spaced (initialCursor E now startDate os) st'"
    using scan_spaced [OF run sh] by blast
  then have "sorted_wrt (\<lambda>a b. start a + 1800000 \<le> start b) (freeSlots st')"
    by (simp add: spaced_def)
  then have "sorted_wrt (\<lambda>a b. start a \<le> start b) (take 5 (freeSlots st'))"
    by (intro sorted_wrt_take) (erule sorted_wrt_mono_rel [rotated], simp)
  then have "sorted (map start (take 5 (freeSlots st')))"
    by (simp add: sorted_map)
  then show "\<exists>slots. calculateFreeSlotsAdvanced E now busy startDate endDate duration os = Some slots \<and>
         length slots \<le> 5 \<and> sorted (map start slots)"
    using run by (simp add: calculateFreeSlotsAdvanced_def)
qed

theorem result_capped_and_chronological_witness:
  "calculateFreeSlotsAdvanced utcHost 0 [] 1707177600000 1707264000000 60 (Some utcOptions) =
     Some [\<lparr>start = 1707210000000, endT = 1707213600000, available = True\<rparr>,
           \<lparr>start = 1707211800000, endT = 1707215400000, available = True\<rparr>,
           \<lparr>start = 1707213600000, endT = 1707217200000, available = True\<rparr>,
           \<lparr>start = 1707215400000, endT = 1707219000000, available = True\<rparr>,
           \<lparr>start = 1707217200000, endT = 1707220800000, available = True\<rparr>] \<and>
   0 \<le> searchStartHour (Some utcOptions) \<and>
   (\<exists>slots. calculateFreeSlotsAdvanced utcHost 0 [] 1707177600000 1707264000000 60 (Some utcOptions) = Some slots \<and>
         length slots \<le> 5 \<and> sorted (map start slots))"
proof -
  have r: "calculateFreeSlotsAdvanced utcHost 0 [] 1707177600000 1707264000000 60 (Some utcOptions) =
     Some [\<lparr>start = 1707210000000, endT = 1707213600000, available = True\<rparr>,
           \<lparr>start = 1707211800000, endT = 1707215400000, available = True\<rparr>,
           \<lparr>start = 1707213600000, endT = 1707217200000, available = True\<rparr>,
           \<lparr>start = 1707215400000, endT = 1707219000000, available = True\<rparr>,
           \<lparr>start = 1707217200000, endT = 1707220800000, available = True\<rparr>]"
    by code_simp
  have h: "0 \<le> searchStartHour (Some utcOptions)" by code_simp
  show ?thesis
    using r h result_capped_and_chronological
      [of utcHost 0 "[]" 1707177600000 1707264000000 60 "Some utcOptions"]
    by blast
qed

section \<open>The window bounds\<close>

text \<open>
  C10. The scanner does not clamp candidates to the start of the search window. With a
  window that starts at 14:00 on a day that is not today, a start hour of 9 and no busy
  period, the first returned slot starts at 09:00, before the window does, because the
  cursor starts at the start hour on the window's first day. Every returned slot
  nevertheless starts strictly before the end of the window.
\<close>

theorem no_clamp_to_window_start:
  "(\<exists>slots s. calculateFreeSlotsAdvanced utcHost 0 [] 1707228000000 1707264000000 30 (Some utcOptions)
        = Some slots \<and> s \<in> set slots \<and> start s < 1707228000000 \<and>
      searchStartHour (Some utcOptions) < getHourInTimezone utcHost 1707228000000 ''UTC'' \<and>
      getDateStringInTimezone utcHost 0 ''UTC'' < getDateStringInTimezone utcHost 1707228000000 ''UTC'') \<and>
   (calculateFreeSlotsAdvanced E now busy startDate endDate duration os = Some res \<longrightarrow>
      (\<forall>s \<in> set res. start s < endDate))"
proof (intro conjI impI ballI)
  have r: "calculateFreeSlotsAdvanced utcHost 0 [] 1707228000000 1707264000000 30 (Some utcOptions) =
     Some [\<lparr>start = 1707210000000, endT = 1707211800000, available = True\<rparr>,
           \<lparr>start = 1707211800000, endT = 1707213600000, available = True\<rparr>,
           \<lparr>start = 1707213600000, endT = 1707215400000, available = True\<rparr>,
           \<lparr>start = 1707215400000, endT = 1707217200000, available = True\<rparr>,
           \<lparr>start = 1707217200000, endT = 1707219000000, available = True\<rparr>]"
    by code_simp
  have h: "searchStartHour (Some utcOptions) < getHourInTimezone utcHost 1707228000000 ''UTC''"
    by code_simp
  have d: "getDateStringInTimezone utcHost 0 ''UTC'' < getDateStringInTimezone utcHost 1707228000000 ''UTC''"
    by code_simp
  show "\<exists>slots s. calculateFreeSlotsAdvanced utcHost 0 [] 1707228000000 1707264000000 30 (Some utcOptions)
        = Some slots \<and> s \<in> set slots \<and> start s < 1707228000000 \<and>
      searchStartHour (Some utcOptions) < getHourInTimezone utcHost 1707228000000 ''UTC'' \<and>
      getDateStringInTimezone utcHost 0 ''UTC'' < getDateStringInTimezone utcHost 1707228000000 ''UTC''"
  proof (intro exI conjI)
    show "calculateFreeSlotsAdvanced utcHost 0 [] 1707228000000 1707264000000 30 (Some utcOptions) =
     Some [\<lparr>start = 1707210000000, endT = 1707211800000, available = True\<rparr>,
           \<lparr>start = 1707211800000, endT = 1707213600000, available = True\<rparr>,
           \<lparr>start = 1707213600000, endT = 1707215400000, available = True\<rparr>,
           \<lparr>start = 1707215400000, endT = 1707217200000, available = True\<rparr>,
           \<lparr>start = 1707217200000, endT = 1707219000000, available = True\<rparr>]"
      by (rule r)
    show "\<lparr>start = 1707210000000, endT = 1707211800000, available = True\<rparr> \<in>
      set [\<lparr>start = 1707210000000, endT = 1707211800000, available = True\<rparr>,
           \<lparr>start = 1707211800000, endT = 1707213600000, available = True\<rparr>,
           \<lparr>start = 1707213600000, endT = 1707215400000, available = True\<rparr>,
           \<lparr>start = 1707215400000, endT = 1707217200000, available = True\<rparr>,
           \<lparr>start = 1707217200000, endT = 1707219000000, available = True\<rparr>]"
      by simp
    show "start \<lparr>start = 1707210000000, endT = 1707211800000, available = True\<rparr> < 1707228000000"
      by simp
  qed (rule h d)+
next
  fix s
  assume "calculateFreeSlotsAdvanced E now busy startDate endDate duration os = Some res"
    and "s \<in> set res"
  then have "emittedSlot E (scanOf E busy startDate endDate duration os) s"
    by (rule returned_slots_emitted)
  then show "start s < endDate"
    by (simp add: emittedSlot_def scanOf_def Let_def)
qed

theorem no_clamp_to_window_start_witness:
  "calculateFreeSlotsAdvanced utcHost 0 [] 1707228000000 1707264000000 30 (Some utcOptions) =
     Some [\<lparr>start = 1707210000000, endT = 1707211800000, available = True\<rparr>,
           \<lparr>start = 1707211800000, endT = 1707213600000, available = True\<rparr>,
           \<lparr>start = 1707213600000, endT = 1707215400000, available = True\<rparr>,
           \<lparr>start = 1707215400000, endT = 1707217200000, available = True\<rparr>,
           \<lparr>start = 1707217200000, endT = 1707219000000, available = True\<rparr>] \<and>
   start \<lparr>start = 1707217200000, endT = 1707219000000, available = True\<rparr> < 1707264000000"
proof -
  have r: "calculateFreeSlotsAdvanced utcHost 0 [] 1707228000000 1707264000000 30 (Some utcOptions) =
     Some [\<lparr>start = 1707210000000, endT = 1707211800000, available = True\<rparr>,
           \<lparr>start = 1707211800000, endT = 1707213600000, available = True\<rparr>,
           \<lparr>start = 1707213600000, endT = 1707215400000, available = True\<rparr>,
           \<lparr>start = 1707215400000, endT = 1707217200000, available = True\<rparr>,
           \<lparr>start = 1707217200000, endT = 1707219000000, available = True\<rparr>]"
    by code_simp
  have mem: "\<lparr>start = 1707217200000, endT = 1707219000000, available = True\<rparr> \<in>
      set [\<lparr>start = 1707210000000, endT = 1707211800000, available = True\<rparr>,
           \<lparr>start = 1707211800000, endT = 1707213600000, available = True\<rparr>,
           \<lparr>start = 1707213600000, endT = 1707215400000, available = True\<rparr>,
           \<lparr>start = 1707215400000, endT = 1707217200000, available = True\<rparr>,
           \<lparr>start = 1707217200000, endT = 1707219000000, available = True\<rparr>]"
    by simp
  from no_clamp_to_window_start
      [of utcHost 0 "[]" 1707228000000 1707264000000 30 "Some utcOptions"]
  show ?thesis using r mem by blast
qed

section \<open>Hour bounds\<close>

text \<open>
  What the tests of the loop body give for every returned slot, on any host: its start
  has an hour of the search zone between the start hour (\<^verbatim>\<open>notBefore\<close>, or the hour of
  the preference) and the end hour (\<^verbatim>\<open>notAfter\<close>, or 18). When \<^verbatim>\<open>notAfter\<close> is absent, the
  end of the slot with its after-buffer has an hour of the zone of at most 18, and when
  that hour is 18 the minutes that are zero are those of the host clock.
\<close>

lemma emitted_hours_host_clock:
  assumes "calculateFreeSlotsAdvanced E now busy startDate endDate duration os = Some res"
    and "s \<in> set res"
  shows "(case opt notBefore os of Some h \<Rightarrow> h
          | None \<Rightarrow> (case opt timePreference os of Some Afternoon \<Rightarrow> 13 | Some Evening \<Rightarrow> 17 | _ \<Rightarrow> 9))
           \<le> getHourInTimezone E (start s) (orKolkata (opt timezone os))"
    and "getHourInTimezone E (start s) (orKolkata (opt timezone os))
           \<le> (case opt notAfter os of Some h \<Rightarrow> h | None \<Rightarrow> 18)"
    and "opt notAfter os = None \<Longrightarrow>
           getHourInTimezone E
             (start s + duration * 60000 + (case opt bufferAfter os of Some b \<Rightarrow> b | None \<Rightarrow> 0) * 60000)
             (orKolkata (opt timezone os)) \<le> 18"
    and "opt notAfter os = None \<Longrightarrow>
           getHourInTimezone E
             (start s + duration * 60000 + (case opt bufferAfter os of Some b \<Rightarrow> b | None \<Rightarrow> 0) * 60000)
             (orKolkata (opt timezone os)) = 18 \<Longrightarrow>
           getMinutes E
             (start s + duration * 60000 + (case opt bufferAfter os of Some b \<Rightarrow> b | None \<Rightarrow> 0) * 60000) = 0"
proof -
  let ?c = "scanOf E busy startDate endDate duration os"
  have "emittedSlot E ?c s"
    using assms returned_slots_emitted by blast
  then have adm: "admitsAt E ?c (start s)"
    by (simp add: emittedSlot_def)
  have m: "(\<not> 0 < getMinutes E d) = (getMinutes E d = 0)" for d
    using pos_mod_sign [of 60 "localTime E d div 60000"] by (auto simp add: getMinutes_def)
  have sh: "searchStartHour os =
      (case opt notBefore os of Some h \<Rightarrow> h
       | None \<Rightarrow> (case opt timePreference os of Some Afternoon \<Rightarrow> 13 | Some Evening \<Rightarrow> 17 | _ \<Rightarrow> 9))"
    by (simp add: searchStartHour_def getStartHourFromPreference_def
          split: option.splits time_preference.splits)
  have c: "startHour ?c = searchStartHour os" "endHour ?c = searchEndHour os"
    "timezoneName ?c = orKolkata (opt timezone os)"
    "userSpecifiedEndHour ?c = (opt notAfter os \<noteq> None)"
    "slotDuration ?c = duration * 60000"
    "bufferAfterMs ?c = orZero (opt bufferAfter os) * 60000"
    by (simp_all add: scanOf_def Let_def)
  have oz: "orZero (opt bufferAfter os) = (case opt bufferAfter os of Some b \<Rightarrow> b | None \<Rightarrow> 0)"
    by (simp add: orZero_def split: option.splits)
  show "(case opt notBefore os of Some h \<Rightarrow> h
          | None \<Rightarrow> (case opt timePreference os of Some Afternoon \<Rightarrow> 13 | Some Evening \<Rightarrow> 17 | _ \<Rightarrow> 9))
           \<le> getHourInTimezone E (start s) (orKolkata (opt timezone os))"
    using adm unfolding sh [symmetric] by (simp add: admitsAt_def Let_def c)
  show "getHourInTimezone E (start s) (orKolkata (opt timezone os))
           \<le> (case opt notAfter os of Some h \<Rightarrow> h | None \<Rightarrow> 18)"
    using adm by (simp add: admitsAt_def Let_def c searchEndHour_def)
  {
    assume n: "opt notAfter os = None"
    then have e: "searchEndHour os = 18" by (simp add: searchEndHour_def)
    show "getHourInTimezone E
             (start s + duration * 60000 + (case opt bufferAfter os of Some b \<Rightarrow> b | None \<Rightarrow> 0) * 60000)
             (orKolkata (opt timezone os)) \<le> 18"
      using adm n e unfolding oz [symmetric] by (simp add: admitsAt_def Let_def c)
    assume "getHourInTimezone E
             (start s + duration * 60000 + (case opt bufferAfter os of Some b \<Rightarrow> b | None \<Rightarrow> 0) * 60000)
             (orKolkata (opt timezone os)) = 18"
    then show "getMinutes E
             (start s + duration * 60000 + (case opt bufferAfter os of Some b \<Rightarrow> b | None \<Rightarrow> 0) * 60000) = 0"
      using adm n e unfolding oz [symmetric] by (simp add: admitsAt_def Let_def c m)
  }
qed

text \<open>
  C5. Without \<^verbatim>\<open>notAfter\<close>, a returned slot whose buffered end has the end hour and
  nonzero minutes on the wall clock of the search zone is to be pruned. The source tests
  the minutes with \<^verbatim>\<open>getMinutes\<close>, on the host clock. On a host in UTC, an evening
  search of 60 minutes in \<^verbatim>\<open>Asia/Kolkata\<close> over 2024-02-06 returns the slot from 12:00Z
  to 13:00Z, which is 17:30 to 18:30 in Kolkata: its end has hour 18 and minute 30 in
  the zone, minute 0 on the host, and it is not pruned. On a host in Kolkata the same
  search returns 17:00 to 18:00.
\<close>

theorem slot_past_endHour_on_utc_host:
  "calculateFreeSlotsAdvanced utcHost 0 [] 1707177600000 1707264000000 60
     (Some \<lparr>timePreference = Some Evening, notBefore = None, notAfter = None, excludeDays = None,
            bufferBefore = None, bufferAfter = None, timezone = Some ''Asia/Kolkata''\<rparr>) =
     Some [\<lparr>start = 1707220800000, endT = 1707224400000, available = True\<rparr>] \<and>
   getHourInTimezone utcHost 1707220800000 ''Asia/Kolkata'' = 17 \<and>
   zoneTime utcHost 1707220800000 ''Asia/Kolkata'' div 60000 mod 60 = 30 \<and>
   getHourInTimezone utcHost 1707224400000 ''Asia/Kolkata'' = 18 \<and>
   zoneTime utcHost 1707224400000 ''Asia/Kolkata'' div 60000 mod 60 = 30 \<and>
   getMinutes utcHost 1707224400000 = 0 \<and>
   calculateFreeSlotsAdvanced kolkataHost 0 [] 1707177600000 1707264000000 60
     (Some \<lparr>timePreference = Some Evening, notBefore = None, notAfter = None, excludeDays = None,
            bufferBefore = None, bufferAfter = None, timezone = Some ''Asia/Kolkata''\<rparr>) =
     Some [\<lparr>start = 1707219000000, endT = 1707222600000, available = True\<rparr>]"
  by (intro conjI; code_simp)

section \<open>Overlap between returned slots\<close>

text \<open>
  C6 as stated, that the returned slots are pairwise disjoint for every input, fails:
  the cursor moves by 30 minutes whatever the duration, so a search for 60 minutes
  returns 09:00 to 10:00 and 09:30 to 10:30.
\<close>

theorem overlapping_slots_counterexample:
  "calculateFreeSlotsAdvanced utcHost 0 [] 1707177600000 1707264000000 60 (Some utcOptions) =
     Some [\<lparr>start = 1707210000000, endT = 1707213600000, available = True\<rparr>,
           \<lparr>start = 1707211800000, endT = 1707215400000, available = True\<rparr>,
           \<lparr>start = 1707213600000, endT = 1707217200000, available = True\<rparr>,
           \<lparr>start = 1707215400000, endT = 1707219000000, available = True\<rparr>,
           \<lparr>start = 1707217200000, endT = 1707220800000, available = True\<rparr>] \<and>
   \<not> disjointSlots \<lparr>start = 1707210000000, endT = 1707213600000, available = True\<rparr>
                    \<lparr>start = 1707211800000, endT = 1707215400000, available = True\<rparr>"
proof
  show "calculateFreeSlotsAdvanced utcHost 0 [] 1707177600000 1707264000000 60 (Some utcOptions) =
     Some [\<lparr>start = 1707210000000, endT = 1707213600000, available = True\<rparr>,
           \<lparr>start = 1707211800000, endT = 1707215400000, available = True\<rparr>,
           \<lparr>start = 1707213600000, endT = 1707217200000, available = True\<rparr>,
           \<lparr>start = 1707215400000, endT = 1707219000000, available = True\<rparr>,
           \<lparr>start = 1707217200000, endT = 1707220800000, available = True\<rparr>]"
    by code_simp
  have "(1707211800000::int) \<in> {1707210000000 ..< 1707213600000} \<inter> {1707211800000 ..< 1707215400000}"
    by simp
  then show "\<not> disjointSlots \<lparr>start = 1707210000000, endT = 1707213600000, available = True\<rparr>
                    \<lparr>start = 1707211800000, endT = 1707215400000, available = True\<rparr>"
    unfolding disjointSlots_def by (simp del: Int_iff atLeastLessThan_iff)
qed

text \<open>
  C6, amended. For a duration of at most 30 minutes (and a start hour that is not
  negative) the scan returns, and the half-open intervals \<open>[start, start + duration)\<close>
  of any two returned slots are disjoint.
\<close>

theorem short_slots_do_not_overlap:
  assumes "0 \<le> searchStartHour os" and "duration \<le> 30"
  shows "\<exists>slots. calculateFreeSlotsAdvanced E now busy startDate endDate duration os = Some slots \<and>
           (\<forall>i j. i < j \<and> j < length slots \<longrightarrow> disjointSlots (slots ! i) (slots ! j))"
proof -
  let ?c = "scanOf E busy startDate endDate duration os"
  obtain st where res: "calculateFreeSlotsAdvanced E now busy startDate endDate duration os = Some (take 5 (freeSlots st))"
    and sp: "spaced (initialCursor E now startDate os) st"
    and em: "\<forall>s \<in> set (freeSlots st). emittedSlot E ?c s"
    using scan_run [OF assms(1)] by blast
  have dur: "slotDuration ?c \<le> 1800000"
    using assms(2) by (simp add: scanOf_def Let_def)
  have gap: "sorted_wrt (\<lambda>a b. start a + 1800000 \<le> start b) (freeSlots st)"
    using sp by (simp add: spaced_def)
  have "sorted_wrt disjointSlots (freeSlots st)"
  proof (rule sorted_wrt_mono_rel [OF _ gap])
    fix a b
    assume a: "a \<in> set (freeSlots st)" and b: "b \<in> set (freeSlots st)"
      and g: "start a + 1800000 \<le> start b"
    have "endT a = start a + slotDuration ?c"
      using em a by (simp add: emittedSlot_def)
    then have "endT a \<le> start b" using dur g by linarith
    then show "disjointSlots a b"
      by (auto simp add: disjointSlots_def)
  qed
  then have "sorted_wrt disjointSlots (take 5 (freeSlots st))"
    by (rule sorted_wrt_take)
  then have "\<forall>i j. i < j \<and> j < length (take 5 (freeSlots st)) \<longrightarrow>
               disjointSlots (take 5 (freeSlots st) ! i) (take 5 (freeSlots st) ! j)"
    by (simp only: sorted_wrt_iff_nth_less) blast
  then show ?thesis using res by blast
qed

theorem short_slots_do_not_overlap_witness:
  "0 \<le> searchStartHour (Some utcOptions) \<and> (30::int) \<le> 30 \<and>
   calculateFreeSlotsAdvanced utcHost 0 [] 1707177600000 1707264000000 30 (Some utcOptions) =
     Some [\<lparr>start = 1707210000000, endT = 1707211800000, available = True\<rparr>,
           \<lparr>start = 1707211800000, endT = 1707213600000, available = True\<rparr>,
           \<lparr>start = 1707213600000, endT = 1707215400000, available = True\<rparr>,
           \<lparr>start = 1707215400000, endT = 1707217200000, available = True\<rparr>,
           \<lparr>start = 1707217200000, endT = 1707219000000, available = True\<rparr>] \<and>
   disjointSlots \<lparr>start = 1707210000000, endT = 1707211800000, available = True\<rparr>
                 \<lparr>start = 1707211800000, endT = 1707213600000, available = True\<rparr>"
proof -
  have h: "0 \<le> searchStartHour (Some utcOptions)" by code_simp
  have d: "(30::int) \<le> 30" by simp
  have r: "calculateFreeSlotsAdvanced utcHost 0 [] 1707177600000 1707264000000 30 (Some utcOptions) =
     Some [\<lparr>start = 1707210000000, endT = 1707211800000, available = True\<rparr>,
           \<lparr>start = 1707211800000, endT = 1707213600000, available = True\<rparr>,
           \<lparr>start = 1707213600000, endT = 1707215400000, available = True\<rparr>,
           \<lparr>start = 1707215400000, endT = 1707217200000, available = True\<rparr>,
           \<lparr>start = 1707217200000, endT = 1707219000000, available = True\<rparr>]"
    by code_simp
  let ?slots = "[\<lparr>start = 1707210000000, endT = 1707211800000, available = True\<rparr>,
           \<lparr>start = 1707211800000, endT = 1707213600000, available = True\<rparr>,
           \<lparr>start = 1707213600000, endT = 1707215400000, available = True\<rparr>,
           \<lparr>start = 1707215400000, endT = 1707217200000, available = True\<rparr>,
           \<lparr>start = 1707217200000, endT = 1707219000000, available = True\<rparr>]"
  from short_slots_do_not_overlap [OF h d, of utcHost 0 "[]" 1707177600000 1707264000000]
  have all: "\<forall>i j. i < j \<and> j < length ?slots \<longrightarrow> disjointSlots (?slots ! i) (?slots ! j)"
    unfolding r by (simp only: option.inject simp_thms ex_simps)
  have "0 < (1::nat) \<and> 1 < length ?slots" by simp
  then have "disjointSlots (?slots ! 0) (?slots ! 1)"
    using all by blast
  then have "disjointSlots \<lparr>start = 1707210000000, endT = 1707211800000, available = True\<rparr>
                 \<lparr>start = 1707211800000, endT = 1707213600000, available = True\<rparr>"
    by simp
  then show ?thesis using h r by simp
qed

section \<open>What the bound of 10 bounds\<close>




section \<open>A search that starts today\<close>

text \<open>
  The cursor of a search that starts today, once \<^verbatim>\<open>now\<close> has passed the start hour.
\<close>

lemma hour_split:
  "localTime E d mod 3600000 = getMinutes E d * 60000 + localTime E d mod 60000"
  using zmod_zmult2_eq [of 60 "localTime E d" 60000] by (simp add: getMinutes_def)

lemma minutes_range: "0 \<le> getMinutes E d \<and> getMinutes E d \<le> 59"
  using pos_mod_bound [of 60 "localTime E d div 60000"] by (simp add: getMinutes_def)

lemma subMinute_range: "0 \<le> localTime E d mod 60000 \<and> localTime E d mod 60000 \<le> 59999"
  using pos_mod_bound [of 60000 "localTime E d"] by simp

lemma half_of_hour: "localTime E d mod 1800000 = (localTime E d mod 3600000) mod 1800000"
  by (simp add: mod_mod_cancel)

lemma halfHour_low:
  assumes "localTime E d mod 3600000 < 1800000"
  shows "localTime E d mod 1800000 = localTime E d mod 3600000"
  using assms subHour_range [of E d] by (simp add: half_of_hour)

lemma halfHour_high:
  assumes "1800000 \<le> localTime E d mod 3600000"
  shows "localTime E d mod 1800000 = localTime E d mod 3600000 - 1800000"
proof -
  let ?r = "localTime E d mod 3600000"
  have "(?r - 1800000) mod 1800000 = ?r - 1800000"
    by (rule mod_pos_pos_trivial) (use assms subHour_range [of E d] in linarith)+
  moreover have "(?r - 1800000) mod 1800000 = ?r mod 1800000"
    by (rule minus_mod_self2)
  ultimately show ?thesis by (simp only: half_of_hour [of E d])
qed

lemma roundUpNow_off_boundary:
  assumes "getMinutes E now \<noteq> 0" and "getMinutes E now \<noteq> 30"
  shows "roundUpNow E now = nextHalfHour E now"
proof -
  let ?L = "localTime E now"
  let ?m = "getMinutes E now"
  let ?s = "?L mod 60000"
  note hs = hour_split [of E now]
  note mr = minutes_range [of E now]
  note sr = subMinute_range [of E now]
  show ?thesis
  proof (cases "?m \<le> 30")
    case True
    then have "?m \<le> 29" using assms by linarith
    then have "?L mod 3600000 < 1800000" using hs sr by linarith
    then have "?L mod 1800000 = ?L mod 3600000" by (rule halfHour_low)
    moreover have "0 < ?m" using assms mr by linarith
    ultimately show ?thesis
      using True by (simp add: roundUpNow_def nextHalfHour_def setMinutes_def Let_def)
  next
    case False
    then have "1800000 \<le> ?L mod 3600000" using hs sr by linarith
    then have half: "?L mod 1800000 = ?L mod 3600000 - 1800000" by (rule halfHour_high)
    have "localTime E (now + (60 - ?m) * 60000) = ?s + (?L div 3600000 + 1) * 3600000"
    proof -
      have "?L = ?L div 3600000 * 3600000 + ?L mod 3600000" by simp
      then have "?L = ?L div 3600000 * 3600000 + ?m * 60000 + ?s" using hs by linarith
      moreover have "localTime E (now + (60 - ?m) * 60000) = ?L + (60 - ?m) * 60000"
        by (simp add: localTime_def)
      ultimately show ?thesis by (simp add: algebra_simps)
    qed
    then have "localTime E (now + (60 - ?m) * 60000) mod 3600000 = ?s mod 3600000"
      by (simp only: mod_mult_self1)
    also have "\<dots> = ?s" using sr by (simp add: mod_pos_pos_trivial)
    finally have sm: "localTime E (now + (60 - ?m) * 60000) mod 3600000 = ?s" .
    have eq: "(60 - ?m) * 60 * 1000 = (60 - ?m) * 60000" by simp
    have "setMinutes E (now + (60 - ?m) * 60 * 1000) 0 0 0 = now + (60 - ?m) * 60000 - ?s"
      unfolding setMinutes_def eq sm by simp
    moreover have "nextHalfHour E now = now + 3600000 - (?m * 60000 + ?s)"
      using half hs by (simp add: nextHalfHour_def)
    ultimately show ?thesis
      using False by (simp add: roundUpNow_def Let_def algebra_simps)
  qed
qed

lemma roundUpNow_on_boundary:
  assumes "localTime E now mod 1800000 = 0"
  shows "roundUpNow E now = now"
proof -
  let ?L = "localTime E now"
  let ?m = "getMinutes E now"
  note hs = hour_split [of E now]
  note mr = minutes_range [of E now]
  note sr = subMinute_range [of E now]
  show ?thesis
  proof (cases "?L mod 3600000 < 1800000")
    case True
    then have "?L mod 3600000 = 0" using assms halfHour_low by fastforce
    then have "?m = 0" using hs mr sr by linarith
    then show ?thesis by (simp add: roundUpNow_def)
  next
    case False
    then have "?L mod 3600000 = 1800000" using assms halfHour_high [of E now] by linarith
    moreover from this have "?m = 30" using hs mr sr by linarith
    ultimately show ?thesis by (simp add: roundUpNow_def setMinutes_def)
  qed
qed

text \<open>
  C3 as stated, that every returned slot of such a search starts no earlier than the
  next half-hour boundary strictly after \<^verbatim>\<open>now\<close>, fails when \<^verbatim>\<open>now\<close> is itself on a
  boundary: the source rounds only when the minutes are positive. At 11:00:00.000 the
  first returned slot starts at 11:00, and the next boundary after it is 11:30.
\<close>

theorem today_slot_at_now_counterexample:
  "getDateStringInTimezone utcHost 1707217200000 ''UTC'' =
     getDateStringInTimezone utcHost 1707210000000 ''UTC'' \<and>
   setHourInTimezone utcHost 1707210000000 9 ''UTC'' < 1707217200000 \<and>
   calculateFreeSlotsAdvanced utcHost 1707217200000 [] 1707210000000 1707264000000 30 (Some utcOptions) =
     Some [\<lparr>start = 1707217200000, endT = 1707219000000, available = True\<rparr>,
           \<lparr>start = 1707219000000, endT = 1707220800000, available = True\<rparr>,
           \<lparr>start = 1707220800000, endT = 1707222600000, available = True\<rparr>,
           \<lparr>start = 1707222600000, endT = 1707224400000, available = True\<rparr>,
           \<lparr>start = 1707224400000, endT = 1707226200000, available = True\<rparr>] \<and>
   nextHalfHour utcHost 1707217200000 = 1707219000000"
  by (intro conjI; code_simp)

text \<open>
  C3, amended. In a search whose window starts today and whose cursor at the start hour
  is already past, every returned slot starts no earlier than the next half-hour
  boundary of the host clock strictly after \<^verbatim>\<open>now\<close> when the minute of \<^verbatim>\<open>now\<close> is
  neither 0 nor 30, and no earlier than \<^verbatim>\<open>now\<close> itself when \<^verbatim>\<open>now\<close> is exactly on a
  half-hour boundary. With \<^verbatim>\<open>now\<close> at 11:10 and a window that starts at 09:00 the same
  day, no returned slot starts before 11:30.
\<close>

theorem today_search_starts_at_rounded_now:
  assumes "0 \<le> searchStartHour os"
    and "getDateStringInTimezone E now (orKolkata (opt timezone os)) =
         getDateStringInTimezone E startDate (orKolkata (opt timezone os))"
    and "setHourInTimezone E startDate (searchStartHour os) (orKolkata (opt timezone os)) < now"
    and "calculateFreeSlotsAdvanced E now busy startDate endDate duration os = Some res"
    and "s \<in> set res"
  shows "(getMinutes E now \<noteq> 0 \<and> getMinutes E now \<noteq> 30 \<longrightarrow> nextHalfHour E now \<le> start s) \<and>
         (localTime E now mod 1800000 = 0 \<longrightarrow> now \<le> start s)"
proof -
  have cur: "initialCursor E now startDate os = roundUpNow E now"
    using assms(2,3) by (simp add: initialCursor_def Let_def)
  obtain st where r: "calculateFreeSlotsAdvanced E now busy startDate endDate duration os =
                        Some (take 5 (freeSlots st))"
    and sp: "spaced (initialCursor E now startDate os) st"
    using scan_run [OF assms(1), of E busy startDate endDate duration now] by blast
  have "s \<in> set (freeSlots st)"
    using assms(4,5) r by (auto dest: in_set_takeD)
  then have "roundUpNow E now \<le> start s"
    using sp cur by (simp add: spaced_def)
  then show ?thesis
    using roundUpNow_off_boundary [of E now] roundUpNow_on_boundary [of E now] by auto
qed

theorem today_search_starts_at_rounded_now_witness:
  "0 \<le> searchStartHour (Some utcOptions) \<and>
   getDateStringInTimezone utcHost 1707217800000 ''UTC'' =
     getDateStringInTimezone utcHost 1707210000000 ''UTC'' \<and>
   setHourInTimezone utcHost 1707210000000 9 ''UTC'' < 1707217800000 \<and>
   calculateFreeSlotsAdvanced utcHost 1707217800000 [] 1707210000000 1707264000000 30 (Some utcOptions) =
     Some [\<lparr>start = 1707219000000, endT = 1707220800000, available = True\<rparr>,
           \<lparr>start = 1707220800000, endT = 1707222600000, available = True\<rparr>,
           \<lparr>start = 1707222600000, endT = 1707224400000, available = True\<rparr>,
           \<lparr>start = 1707224400000, endT = 1707226200000, available = True\<rparr>,
           \<lparr>start = 1707226200000, endT = 1707228000000, available = True\<rparr>] \<and>
   getMinutes utcHost 1707217800000 = 10 \<and>
   nextHalfHour utcHost 1707217800000 = 1707219000000 \<and>
   nextHalfHour utcHost 1707217800000 \<le> 1707219000000"
proof -
  let ?slots = "[\<lparr>start = 1707219000000, endT = 1707220800000, available = True\<rparr>,
           \<lparr>start = 1707220800000, endT = 1707222600000, available = True\<rparr>,
           \<lparr>start = 1707222600000, endT = 1707224400000, available = True\<rparr>,
           \<lparr>start = 1707224400000, endT = 1707226200000, available = True\<rparr>,
           \<lparr>start = 1707226200000, endT = 1707228000000, available = True\<rparr>]"
  have h: "0 \<le> searchStartHour (Some utcOptions)" by code_simp
  have z: "orKolkata (opt timezone (Some utcOptions)) = ''UTC''" by code_simp
  have sh: "searchStartHour (Some utcOptions) = 9" by code_simp
  have d: "getDateStringInTimezone utcHost 1707217800000 ''UTC'' =
     getDateStringInTimezone utcHost 1707210000000 ''UTC''" by code_simp
  have c: "setHourInTimezone utcHost 1707210000000 9 ''UTC'' < 1707217800000" by code_simp
  have r: "calculateFreeSlotsAdvanced utcHost 1707217800000 [] 1707210000000 1707264000000 30 (Some utcOptions) =
     Some ?slots"
    by code_simp
  have m: "getMinutes utcHost 1707217800000 = 10" by code_simp
  have n: "nextHalfHour utcHost 1707217800000 = 1707219000000" by code_simp
  have mem: "\<lparr>start = 1707219000000, endT = 1707220800000, available = True\<rparr> \<in> set ?slots"
    by simp
  have "(getMinutes utcHost 1707217800000 \<noteq> 0 \<and> getMinutes utcHost 1707217800000 \<noteq> 30 \<longrightarrow>
          nextHalfHour utcHost 1707217800000
            \<le> start \<lparr>start = 1707219000000, endT = 1707220800000, available = True\<rparr>) \<and>
        (localTime utcHost 1707217800000 mod 1800000 = 0 \<longrightarrow>
          1707217800000 \<le> start \<lparr>start = 1707219000000, endT = 1707220800000, available = True\<rparr>)"
    by (rule today_search_starts_at_rounded_now [OF h _ _ r mem]) (simp_all only: z sh d c)
  then have "nextHalfHour utcHost 1707217800000 \<le> 1707219000000"
    unfolding m by simp
  then show ?thesis using h d c r m n by simp
qed

section \<open>Failures of the calendar collaborator\<close>

text \<open>
  C8. If the free/busy query inside \<^verbatim>\<open>findAvailableSlotsAdvanced\<close> fails, the call fails
  with an error and returns no list, empty or not. If the provider call inside
  \<^verbatim>\<open>searchEvents\<close> fails, the call returns the empty array, and if fetching the events
  inside \<^verbatim>\<open>getLastMeetingOfDay\<close> fails, the call returns null.
\<close>

theorem provider_failures:
  "(freebusy_query G p startDate endDate = Inl e \<longrightarrow>
      findAvailableSlotsAdvanced E G p now duration startDate endDate os =
        Some (Inl (Error ''Failed to find available slots'')) \<and>
      findAvailableSlotsAdvanced E G p now duration startDate endDate os \<noteq> Some (Inr slots)) \<and>
   (events_list G p (case from of Some d \<Rightarrow> d | None \<Rightarrow> now)
        (case until of Some d \<Rightarrow> d | None \<Rightarrow> now + 30 * 24 * 60 * 60 * 1000) (Some query) = Inl e \<longrightarrow>
      searchEvents G p now query from until = Inr []) \<and>
   (events_list G p
        (setHourInTimezone E day 0 (case tz of None \<Rightarrow> ''Asia/Kolkata'' | Some z \<Rightarrow> z))
        (setHourInTimezone E day 23 (case tz of None \<Rightarrow> ''Asia/Kolkata'' | Some z \<Rightarrow> z)
           + 59 * 60 * 1000 + 59 * 1000 + 999)
        None = Inl e \<longrightarrow>
      getLastMeetingOfDay E G p day tz = Inr None)"
  by (auto simp add: findAvailableSlotsAdvanced_def searchEvents_def getLastMeetingOfDay_def
        getEvents_def Let_def)

theorem provider_failures_witness:
  "freebusy_query unreachableCalendar [] 1707177600000 1707264000000 =
     Inl (ProviderError None ''ECONNREFUSED'') \<and>
   findAvailableSlotsAdvanced utcHost unreachableCalendar [] 0 30 1707177600000 1707264000000
       (Some utcOptions) = Some (Inl (Error ''Failed to find available slots'')) \<and>
   searchEvents unreachableCalendar [] 0 ''flight'' None None = Inr [] \<and>
   getLastMeetingOfDay utcHost unreachableCalendar [] 1707177600000 None = Inr None"
proof -
  have f: "freebusy_query unreachableCalendar [] 1707177600000 1707264000000 =
     Inl (ProviderError None ''ECONNREFUSED'')"
    by (simp add: unreachableCalendar_def)
  have s: "events_list unreachableCalendar [] (case None of Some d \<Rightarrow> d | None \<Rightarrow> 0)
        (case None of Some d \<Rightarrow> d | None \<Rightarrow> 0 + 30 * 24 * 60 * 60 * 1000) (Some ''flight'') =
      Inl (ProviderError None ''ECONNREFUSED'')"
    by (simp add: unreachableCalendar_def)
  have l: "events_list unreachableCalendar []
        (setHourInTimezone utcHost 1707177600000 0 (case None of None \<Rightarrow> ''Asia/Kolkata'' | Some z \<Rightarrow> z))
        (setHourInTimezone utcHost 1707177600000 23 (case None of None \<Rightarrow> ''Asia/Kolkata'' | Some z \<Rightarrow> z)
           + 59 * 60 * 1000 + 59 * 1000 + 999)
        None = Inl (ProviderError None ''ECONNREFUSED'')"
    by (simp add: unreachableCalendar_def)
  from provider_failures
    [of unreachableCalendar "[]" 1707177600000 1707264000000 "ProviderError None ''ECONNREFUSED''"
        utcHost 0 30 "Some utcOptions" "[]" None None "''flight''" 1707177600000 None]
  show ?thesis using f s l by blast
qed

text \<open>
  C9 as stated, that deleting an unknown event surfaces an error of its own, distinct
  from a generic failure, fails: \<^verbatim>\<open>deleteMeeting\<close> replaces whatever the provider
  reported by one fixed error, so the answer for an unknown event on a calendar that
  reports status 404 is the answer of a calendar that cannot be reached.
\<close>

theorem deleteMeeting_generic_error_counterexample:
  "deleteMeeting memoryCalendar [] ''evt-1'' = (Inl (Error ''Failed to delete meeting''), []) \<and>
   deleteMeeting unreachableCalendar [] ''evt-1'' = (Inl (Error ''Failed to delete meeting''), [])"
  by (simp add: deleteMeeting_def memoryCalendar_def unreachableCalendar_def)

text \<open>
  C9, amended. \<^verbatim>\<open>deleteMeeting\<close> on an event that the provider does not know fails with
  the error "Failed to delete meeting", which is also the error of every other failure
  of the provider, and a second call in a row on the same identifier fails with that
  same error again.
\<close>

theorem deleteMeeting_failure_is_generic:
  assumes "events_delete G p eventId = (Inl e, p')"
    and "events_delete G p' eventId = (Inl e', p'')"
  shows "deleteMeeting G p eventId = (Inl (Error ''Failed to delete meeting''), p') \<and>
         deleteMeeting G p' eventId = (Inl (Error ''Failed to delete meeting''), p'')"
  using assms by (simp add: deleteMeeting_def)

theorem deleteMeeting_failure_is_generic_witness:
  "events_delete memoryCalendar [''evt-2''] ''evt-1'' =
     (Inl (ProviderError (Some 404) ''Not Found''), [''evt-2'']) \<and>
   deleteMeeting memoryCalendar [''evt-2''] ''evt-1'' =
     (Inl (Error ''Failed to delete meeting''), [''evt-2''])"
proof -
  have d: "events_delete memoryCalendar [''evt-2''] ''evt-1'' =
     (Inl (ProviderError (Some 404) ''Not Found''), [''evt-2''])"
    by (simp add: memoryCalendar_def)
  from deleteMeeting_failure_is_generic [OF d d]
  show ?thesis using d by simp
qed

end
